theory Spec2Isabelle
  imports Main "HOL-Library.Sublist"
begin

section \<open>Strings\<close>

text \<open>
  A Python \<open>str\<close> is modelled as a \<open>string\<close>: a list of characters, each one a code
  point below 256. On that range the classifications used by the source are fixed:
  \<open>str.strip()\<close> and the regular-expression class \<open>\s\<close> remove the code points for which
  \<open>str.isspace\<close> holds (9 to 13, 28 to 32, 133 and 160), and the class \<open>\d\<close> is the
  decimal digits \<open>0\<close> to \<open>9\<close> (48 to 57).
\<close>

definition py_isspace :: "char \<Rightarrow> bool" where
  "py_isspace c = ((of_char c :: nat) \<in> {9, 10, 11, 12, 13, 28, 29, 30, 31, 32, 133, 160})"

definition py_isdecimal :: "char \<Rightarrow> bool" where
  "py_isdecimal c = (48 \<le> (of_char c :: nat) \<and> (of_char c :: nat) \<le> 57)"

text \<open>\<open>s.strip()\<close>: the leading and the trailing white space removed.\<close>

definition py_strip :: "string \<Rightarrow> string" where
  "py_strip s = rev (dropWhile py_isspace (rev (dropWhile py_isspace s)))"

text \<open>
  \<open>s.split(sep)\<close> for a non-empty separator: the text is scanned from the left, and every
  occurrence of the separator ends a piece (occurrences do not overlap). The result is
  never empty: a text without the separator is its own single piece. (With an empty
  separator Python raises; the source only splits on \<open>"\n"\<close> and on the paragraph
  separator.)
\<close>

function py_split :: "string \<Rightarrow> string \<Rightarrow> string list" where
  "py_split sep [] = [[]]"
| "py_split sep (c # cs) =
     (if sep \<noteq> [] \<and> prefix sep (c # cs)
      then [] # py_split sep (drop (length sep) (c # cs))
      else (case py_split sep cs of
              [] \<Rightarrow> [[c]]
            | p # ps \<Rightarrow> (c # p) # ps))"
  by pat_completeness auto
termination
  by (relation "measure (\<lambda>(sep, s). length s)") auto

text \<open>\<open>sep.join(xs)\<close>.\<close>

fun py_join :: "string \<Rightarrow> string list \<Rightarrow> string" where
  "py_join sep [] = []"
| "py_join sep [x] = x"
| "py_join sep (x # y # ys) = x @ sep @ py_join sep (y # ys)"

text \<open>\<open>s.replace(old, new)\<close> for a non-empty \<open>old\<close>: every occurrence, from the left.\<close>

function py_replace :: "string \<Rightarrow> string \<Rightarrow> string \<Rightarrow> string" where
  "py_replace old new [] = []"
| "py_replace old new (c # cs) =
     (if old \<noteq> [] \<and> prefix old (c # cs)
      then new @ py_replace old new (drop (length old) (c # cs))
      else c # py_replace old new cs)"
  by pat_completeness auto
termination
  by (relation "measure (\<lambda>(old, new, s). length s)") auto

abbreviation NL :: string where
  "NL \<equiv> [CHR 0x0A]"

abbreviation CR :: string where
  "CR \<equiv> [CHR 0x0D]"

section \<open>The backend and the translator object\<close>

text \<open>
  The exceptions that the modelled code can raise: the built-in ones raised by a failed
  subscript or attribute access on the response, and \<open>APIError\<close> for whatever the call of
  \<open>openai.ChatCompletion.create\<close> itself raises (network and service faults).
\<close>

datatype pyexn = KeyError | IndexError | TypeError | AttributeError | APIError string

text \<open>
  The response of the backend is a JSON value. An object is an association list, read
  with \<open>map_of\<close>.
\<close>

datatype json =
    JNull
  | JBool bool
  | JNum int
  | JStr string
  | JList "json list"
  | JObj "(string \<times> json) list"

datatype api_result = Raise pyexn | Return json

text \<open>
  The records of the mismatch log: the summary written by \<open>log_retry\<close>, with the state
  and the number of retries (the elapsed time, read from the clock, is left out), and
  the texts printed by \<open>log_translation_mismatch\<close>.
\<close>

datatype log_record = RetryRecord string nat | Printed string

text \<open>
  The translator object \<open>self\<close> together with the part of the outside that the methods
  touch. The backend is an external collaborator: \<open>backend k\<close> is the outcome of the
  \<open>k\<close>-th call of \<open>create_chat_completion\<close> (counted from 0), \<open>calls\<close> counts the calls
  made so far, and \<open>sent\<close> lists the texts for which a completion was requested.
  \<open>slept\<close> records every \<open>time.sleep\<close>, the latest first. The two log files
  are append-only lists of the records handed to \<open>print(..., file=f)\<close>; opening them
  for appending is taken to succeed. Printing to the console and the rotation of API
  keys leave no trace in the model.
\<close>

record translator =
  key_len :: nat
  backend :: "nat \<Rightarrow> api_result"
  calls :: nat
  sent :: "string list"
  slept :: "nat list"
  long_text_log :: "string list"
  buglog :: "log_record list"

definition create_chat_completion :: "string \<Rightarrow> translator \<Rightarrow> api_result \<times> translator" where
  "create_chat_completion text s =
     (backend s (calls s), s\<lparr>calls := Suc (calls s), sent := sent s @ [text]\<rparr>)"

definition sleep :: "nat \<Rightarrow> translator \<Rightarrow> translator" where
  "sleep d s = s\<lparr>slept := d # slept s\<rparr>"

subsection \<open>Reading the response\<close>

text \<open>\<open>v[k]\<close> with a string key: only an object has string keys.\<close>

fun subscript_key :: "json \<Rightarrow> string \<Rightarrow> pyexn + json" where
  "subscript_key (JObj kvs) k = (case map_of kvs k of None \<Rightarrow> Inl KeyError | Some v \<Rightarrow> Inr v)"
| "subscript_key _ k = Inl TypeError"

text \<open>\<open>v[0]\<close>: the keys of a JSON object are strings, so \<open>0\<close> is never among them.\<close>

fun subscript_0 :: "json \<Rightarrow> pyexn + json" where
  "subscript_0 (JList []) = Inl IndexError"
| "subscript_0 (JList (x # xs)) = Inr x"
| "subscript_0 (JStr []) = Inl IndexError"
| "subscript_0 (JStr (c # cs)) = Inr (JStr [c])"
| "subscript_0 (JObj kvs) = Inl KeyError"
| "subscript_0 _ = Inl TypeError"

text \<open>\<open>v.get(k, default)\<close>: only an object has the method.\<close>

fun dict_get :: "json \<Rightarrow> string \<Rightarrow> json \<Rightarrow> pyexn + json" where
  "dict_get (JObj kvs) k d = (case map_of kvs k of None \<Rightarrow> Inr d | Some v \<Rightarrow> Inr v)"
| "dict_get _ k d = Inl AttributeError"

text \<open>\<open>v.encode("utf8").decode()\<close>: the text itself; only a string has the method.\<close>

fun encode_decode :: "json \<Rightarrow> pyexn + string" where
  "encode_decode (JStr t) = Inr t"
| "encode_decode _ = Inl AttributeError"

definition long_text_record :: "string \<Rightarrow> string" where
  "long_text_record text =
     replicate 50 (CHR ''='') @ NL
     @ ''        The total token is too long and cannot be completely translated'' @ NL @ NL
     @ ''        '' @ text @ NL
     @ ''        ''"

text \<open>
  Lines 105 to 110 of \<open>get_translation\<close>, the part that only reads the value of
  \<open>completion\<close>: the text of the first choice and its finish reason. Any failed
  subscript or method call raises.
\<close>

definition parse_completion :: "json \<Rightarrow> pyexn + string \<times> json" where
  "parse_completion completion =
     (case subscript_key completion ''choices'' of
        Inl e \<Rightarrow> Inl e
      | Inr choices \<Rightarrow>
     (case subscript_0 choices of
        Inl e \<Rightarrow> Inl e
      | Inr choice \<Rightarrow>
     (case dict_get choice ''message'' JNull of
        Inl e \<Rightarrow> Inl e
      | Inr message \<Rightarrow>
     (case dict_get message ''content'' (JStr []) of
        Inl e \<Rightarrow> Inl e
      | Inr content \<Rightarrow>
     (case encode_decode content of
        Inl e \<Rightarrow> Inl e
      | Inr t_text \<Rightarrow>
     (case subscript_key choice ''finish_reason'' of
        Inl e \<Rightarrow> Inl e
      | Inr reason \<Rightarrow> Inr (t_text, reason)))))))"

text \<open>
  Lines 105 to 120: a completion that cannot be read raises before anything is written;
  a truncated one is written to \<open>log/long_text.txt\<close>, and its text is returned like any
  other.
\<close>

definition read_completion :: "string \<Rightarrow> json \<Rightarrow> translator \<Rightarrow> (pyexn + string) \<times> translator" where
  "read_completion text completion s =
     (case parse_completion completion of
        Inl e \<Rightarrow> (Inl e, s)
      | Inr (t_text, reason) \<Rightarrow>
          (if reason = JStr ''length''
           then (Inr t_text, s\<lparr>long_text_log := long_text_log s @ [long_text_record text]\<rparr>)
           else (Inr t_text, s)))"

text \<open>
  The exception handler (lines 96 to 103) on the value of \<open>completion\<close> and the exception
  \<open>e\<close> that it has caught: the exception that it raises, or \<open>None\<close> when it lets the
  method go on.
\<close>

definition handler :: "json \<Rightarrow> pyexn \<Rightarrow> pyexn option" where
  "handler completion e =
     (case subscript_key completion ''choices'' of
        Inl _ \<Rightarrow> Some e
      | Inr (JList []) \<Rightarrow> Some e
      | Inr (JList (choice # _)) \<Rightarrow>
          (case subscript_key choice ''finish_reason'' of
             Inl e1 \<Rightarrow> Some e1
           | Inr reason \<Rightarrow> if reason \<noteq> JStr ''length'' then Some e else None)
      | Inr _ \<Rightarrow> Some e)"

text \<open>
  \<open>get_translation\<close>. When \<open>create_chat_completion\<close> raises, the assignment to
  \<open>completion\<close> has not happened: the handler and the lines after it see the empty
  dictionary of line 92.
\<close>

definition get_translation :: "string \<Rightarrow> translator \<Rightarrow> (pyexn + string) \<times> translator" where
  "get_translation text s =
     (case create_chat_completion text s of
        (Raise e, s1) \<Rightarrow>
          (case handler (JObj []) e of
             Some e1 \<Rightarrow> (Inl e1, s1)
           | None \<Rightarrow> read_completion text (JObj []) s1)
      | (Return completion, s1) \<Rightarrow> read_completion text completion s1)"

subsection \<open>translate\<close>

definition max_attempts :: nat where
  "max_attempts = 3"

text \<open>
  The loop of \<open>translate\<close>, from the current \<open>attempt_count\<close>. Every exception of an
  attempt is caught; the translator sleeps \<open>int(60 / self.key_len)\<close> seconds and tries
  again, and the exception of the third failed attempt is raised.
  (\<open>key_len\<close> is the number of API keys, at least 1.)
\<close>

function translate_loop :: "string \<Rightarrow> nat \<Rightarrow> translator \<Rightarrow> (pyexn + string) \<times> translator" where
  "translate_loop text attempt_count s =
     (if attempt_count < max_attempts then
        (case get_translation text s of
           (Inr t_text, s1) \<Rightarrow> (Inr t_text, s1)
         | (Inl e, s1) \<Rightarrow>
             (if Suc attempt_count = max_attempts
              then (Inl e, sleep (60 div key_len s1) s1)
              else translate_loop text (Suc attempt_count) (sleep (60 div key_len s1) s1)))
      else (Inr [], s))"
  by pat_completeness auto
termination
  by (relation "measure (\<lambda>(text, attempt_count, s). max_attempts - attempt_count)") auto

declare translate_loop.simps [simp del]

definition translate :: "string \<Rightarrow> translator \<Rightarrow> (pyexn + string) \<times> translator" where
  "translate text s = translate_loop text 0 s"

definition translate_and_split_lines ::
  "string \<Rightarrow> translator \<Rightarrow> (pyexn + string list) \<times> translator" where
  "translate_and_split_lines text s =
     (case translate text s of
        (Inl e, s1) \<Rightarrow> (Inl e, s1)
      | (Inr result_str, s1) \<Rightarrow>
          (Inr (map py_strip (filter (\<lambda>line. py_strip line \<noteq> []) (py_split NL result_str))), s1))"

subsection \<open>get_best_result_list\<close>

record loop_state =
  retry_count :: nat
  result_list :: "string list"
  best_result_list :: "string list"

text \<open>One pass through the body of the loop (lines 180 to 195).\<close>

definition retry_once ::
  "nat \<Rightarrow> string \<Rightarrow> nat \<Rightarrow> loop_state \<Rightarrow> translator \<Rightarrow> (pyexn + loop_state) \<times> translator" where
  "retry_once plist_len new_str sleep_dur st s =
     (case translate_and_split_lines new_str (sleep sleep_dur s) of
        (Inl e, s1) \<Rightarrow> (Inl e, s1)
      | (Inr rl, s1) \<Rightarrow>
          (Inr \<lparr>retry_count = Suc (retry_count st),
                result_list = rl,
                best_result_list =
                  (if length rl = plist_len
                      \<or> (length (best_result_list st) < length rl \<and> length rl \<le> plist_len)
                      \<or> (length rl < length (best_result_list st)
                          \<and> length (best_result_list st) > plist_len)
                   then rl else best_result_list st)\<rparr>, s1))"

function retry_loop ::
  "nat \<Rightarrow> string \<Rightarrow> nat \<Rightarrow> nat \<Rightarrow> loop_state \<Rightarrow> translator \<Rightarrow> (pyexn + loop_state) \<times> translator" where
  "retry_loop plist_len new_str sleep_dur max_retries st s =
     (if retry_count st < max_retries \<and> length (result_list st) \<noteq> plist_len then
        (case retry_once plist_len new_str sleep_dur st s of
           (Inl e, s1) \<Rightarrow> (Inl e, s1)
         | (Inr st1, s1) \<Rightarrow> retry_loop plist_len new_str sleep_dur max_retries st1 s1)
      else (Inr st, s))"
  by pat_completeness auto
termination
  by (relation "measure (\<lambda>(plist_len, new_str, sleep_dur, max_retries, st, s).
                           max_retries - retry_count st)")
     (auto simp: retry_once_def split: prod.splits sum.splits)

declare retry_loop.simps [simp del]

definition get_best_result_list ::
  "nat \<Rightarrow> string \<Rightarrow> nat \<Rightarrow> string list \<Rightarrow> nat \<Rightarrow> translator
     \<Rightarrow> (pyexn + string list \<times> nat) \<times> translator" where
  "get_best_result_list plist_len new_str sleep_dur rl max_retries s =
     (if length rl = plist_len then (Inr (rl, 0), s)
      else
        (case retry_loop plist_len new_str sleep_dur max_retries
                \<lparr>retry_count = 0, result_list = rl, best_result_list = rl\<rparr> s of
           (Inl e, s1) \<Rightarrow> (Inl e, s1)
         | (Inr st, s1) \<Rightarrow> (Inr (best_result_list st, retry_count st), s1)))"

section \<open>Packing the paragraphs\<close>

subsection \<open>join_lines\<close>

text \<open>
  The first loop of \<open>join_lines\<close> (lines 244 to 251), one line at a time, on the pair of
  \<open>new_lines\<close> and \<open>temp_line\<close>.
\<close>

fun join_step :: "string list \<times> string list \<Rightarrow> string \<Rightarrow> string list \<times> string list" where
  "join_step (new_lines, temp_line) line =
     (if py_strip line \<noteq> [] then (new_lines, temp_line @ [py_strip line])
      else if temp_line \<noteq> [] then (new_lines @ [py_join '' '' temp_line] @ [line], [])
      else (new_lines @ [line], temp_line))"

text \<open>Lines 253 and 254: the lines that are still held back are joined and appended.\<close>

fun flush :: "string list \<times> string list \<Rightarrow> string list" where
  "flush (new_lines, temp_line) =
     (if temp_line \<noteq> [] then new_lines @ [py_join '' '' temp_line] else new_lines)"

text \<open>Lines 239 to 256: the text with its soft-wrapped lines joined.\<close>

definition joined_text :: "string \<Rightarrow> string" where
  "joined_text text = py_join NL (flush (foldl join_step ([], []) (py_split NL text)))"

definition join_lines :: "string \<Rightarrow> string" where
  "join_lines text =
     (let text1 = py_replace ''^M'' CR (joined_text text);
          lines = py_split NL text1;
          filtered_lines = filter (\<lambda>line. py_strip line \<noteq> CR) lines
      in py_join NL filtered_lines)"

subsection \<open>Paragraphs\<close>






subsection \<open>Numbers as text\<close>





subsection \<open>The request string\<close>

definition sep :: string where
  "sep = NL @ NL @ NL @ NL @ NL"



section \<open>The logs\<close>




section \<open>Removing the leading number\<close>

text \<open>
  The regular expression of line 308, \<open>^(\(\d+\)|\d+\.|(\d+))\s*\<close>, is built from single
  characters, the classes \<open>\d\<close> and \<open>\s\<close>, greedy repetition of a class, sequence and
  alternative. \<open>rests r s\<close> lists what remains of \<open>s\<close> after each way of matching \<open>r\<close> at
  the start of \<open>s\<close>, in the order in which the backtracking matcher tries them: the left
  alternative first, the longest repetition first.
\<close>

datatype atom = Lit char | Digit | Space

datatype regex =
    Atom atom
  | Plus atom
  | Star atom
  | Seq regex regex
  | Alt regex regex

fun accepts :: "atom \<Rightarrow> char \<Rightarrow> bool" where
  "accepts (Lit a) c = (c = a)"
| "accepts Digit c = py_isdecimal c"
| "accepts Space c = py_isspace c"

fun star_rests :: "atom \<Rightarrow> string \<Rightarrow> string list" where
  "star_rests a [] = [[]]"
| "star_rests a (c # cs) = (if accepts a c then star_rests a cs @ [c # cs] else [c # cs])"

fun rests :: "regex \<Rightarrow> string \<Rightarrow> string list" where
  "rests (Atom a) [] = []"
| "rests (Atom a) (c # cs) = (if accepts a c then [cs] else [])"
| "rests (Plus a) [] = []"
| "rests (Plus a) (c # cs) = (if accepts a c then star_rests a cs else [])"
| "rests (Star a) s = star_rests a s"
| "rests (Seq r1 r2) s = concat (map (rests r2) (rests r1 s))"
| "rests (Alt r1 r2) s = rests r1 s @ rests r2 s"

text \<open>A pattern that matches no empty text.\<close>

fun consuming :: "regex \<Rightarrow> bool" where
  "consuming (Atom a) = True"
| "consuming (Plus a) = True"
| "consuming (Star a) = False"
| "consuming (Seq r1 r2) = (consuming r1 \<or> consuming r2)"
| "consuming (Alt r1 r2) = (consuming r1 \<and> consuming r2)"

text \<open>The group \<open>(\(\d+\)|\d+\.|(\d+))\<close>, and the whole pattern.\<close>

definition number_pattern :: regex where
  "number_pattern =
     Alt (Seq (Atom (Lit (CHR ''(''))) (Seq (Plus Digit) (Atom (Lit (CHR '')'')))))
         (Alt (Seq (Plus Digit) (Atom (Lit (CHR ''.''))))
              (Plus Digit))"

definition prefix_pattern :: regex where
  "prefix_pattern = Seq number_pattern (Star Space)"

text \<open>
  \<open>re.sub("^" + r, "", s)\<close> for a pattern \<open>r\<close> that matches no empty text: without the
  multi-line flag \<open>^\<close> matches at the start of the string only, so at most one match,
  the first that the matcher finds there, is replaced by the empty string.
\<close>

definition re_sub_start :: "regex \<Rightarrow> string \<Rightarrow> string" where
  "re_sub_start r s = (case rests r s of [] \<Rightarrow> s | rest # _ \<Rightarrow> rest)"

definition strip_number :: "string \<Rightarrow> string" where
  "strip_number s = re_sub_start prefix_pattern s"

section \<open>translate_list\<close>


section \<open>Properties of backend responses\<close>



section \<open>Example backends\<close>

text \<open>A completion with one choice: the text \<open>t\<close> and the given finish reason.\<close>

definition completion_of :: "string \<Rightarrow> string \<Rightarrow> json" where
  "completion_of t reason =
     JObj [(''choices'',
            JList [JObj [(''message'', JObj [(''role'', JStr ''assistant''), (''content'', JStr t)]),
                         (''finish_reason'', JStr reason)]])]"

text \<open>A backend that answers the first calls from a script and every later call alike.\<close>

definition scripted :: "api_result list \<Rightarrow> api_result \<Rightarrow> nat \<Rightarrow> api_result" where
  "scripted rs d k = (if k < length rs then rs ! k else d)"

text \<open>A translator with one API key that has not called the backend yet.\<close>

definition new_translator :: "(nat \<Rightarrow> api_result) \<Rightarrow> translator" where
  "new_translator b =
     \<lparr>key_len = 1, backend = b, calls = 0, sent = [], slept = [],
      long_text_log = [], buglog = []\<rparr>"

text \<open>The text of \<open>n\<close> lines \<open>x\<close>.\<close>

definition lines_text :: "nat \<Rightarrow> string" where
  "lines_text n = py_join NL (replicate n ''x'')"

text \<open>Two answers of six and of eight lines, and a failure ever after.\<close>

definition demo_backend :: "nat \<Rightarrow> api_result" where
  "demo_backend =
     scripted [Return (completion_of (lines_text 6) ''stop''),
               Return (completion_of (lines_text 8) ''stop'')]
       (Raise (APIError ''down''))"

text \<open>A backend that always answers with the one line \<open>x\<close>.\<close>

definition one_line_backend :: "nat \<Rightarrow> api_result" where
  "one_line_backend = scripted [] (Return (completion_of ''x'' ''stop''))"





section \<open>Functions of the specification\<close>




text \<open>
  A line that begins with a leading number: with a decimal digit, or with a
  parenthesized number.
\<close>

definition starts_with_number :: "string \<Rightarrow> bool" where
  "starts_with_number s =
     (case s of
        [] \<Rightarrow> False
      | c # cs \<Rightarrow>
          py_isdecimal c
          \<or> (c = CHR ''(''
              \<and> takeWhile py_isdecimal cs \<noteq> []
              \<and> (case dropWhile py_isdecimal cs of [] \<Rightarrow> False | d # ds \<Rightarrow> d = CHR '')'')))"

text \<open>
  A blank line has nothing but white space. Every run of consecutive non-blank lines
  becomes one line, its lines trimmed and joined by single spaces; the blank lines stay
  as they are, where they are.
\<close>

definition blank :: "string \<Rightarrow> bool" where
  "blank line = (py_strip line = [])"

function collapse_runs :: "string list \<Rightarrow> string list" where
  "collapse_runs [] = []"
| "collapse_runs (l # ls) =
     (if blank l then l # collapse_runs ls
      else py_join '' '' (map py_strip (takeWhile (\<lambda>x. \<not> blank x) (l # ls)))
           # collapse_runs (dropWhile (\<lambda>x. \<not> blank x) (l # ls)))"
  by pat_completeness auto
termination
  by (relation "measure length") (auto simp: less_Suc_eq_le length_dropWhile_le)

declare collapse_runs.simps [simp del]

definition collapse_text :: "string \<Rightarrow> string" where
  "collapse_text text = py_join NL (collapse_runs (py_split NL text))"


text \<open>
  \<open>join_lines\<close> without its last pass: the soft-wrapped lines joined, then every \<open>^M\<close>
  replaced by a carriage return, and no line removed.
\<close>

definition join_lines_without_filter :: "string \<Rightarrow> string" where
  "join_lines_without_filter text = py_replace ''^M'' CR (joined_text text)"

section \<open>The retry loop\<close>

lemma retry_once_result:
  assumes "translate_and_split_lines new_str (sleep sleep_dur s) = (Inr cn, s1)"
  shows "retry_once plist_len new_str sleep_dur st s =
           (Inr \<lparr>retry_count = Suc (retry_count st), result_list = cn,
                 best_result_list =
                   (if length cn = plist_len
                       \<or> (length (best_result_list st) < length cn \<and> length cn \<le> plist_len)
                       \<or> (length cn < length (best_result_list st)
                           \<and> plist_len < length (best_result_list st))
                    then cn else best_result_list st)\<rparr>, s1)"
  using assms by (simp add: retry_once_def)

lemma demo_first_retry:
  "translate_and_split_lines [] (sleep 6 (new_translator demo_backend)) =
     (Inr (replicate 6 ''x''), (new_translator demo_backend)\<lparr>calls := 1, sent := [[]], slept := [6]\<rparr>)"
  by (simp add: translate_and_split_lines_def translate_def translate_loop.simps max_attempts_def
      get_translation_def create_chat_completion_def read_completion_def parse_completion_def
      sleep_def new_translator_def demo_backend_def scripted_def completion_of_def lines_text_def
      py_strip_def py_isspace_def eval_nat_numeral)

lemma demo_second_retry:
  "translate_and_split_lines []
     (sleep 6 ((new_translator demo_backend)\<lparr>calls := 1, sent := [[]], slept := [6]\<rparr>)) =
     (Inr (replicate 8 ''x''), (new_translator demo_backend)\<lparr>calls := 2, sent := [[], []], slept := [6, 6]\<rparr>)"
  by (simp add: translate_and_split_lines_def translate_def translate_loop.simps max_attempts_def
      get_translation_def create_chat_completion_def read_completion_def parse_completion_def
      sleep_def new_translator_def demo_backend_def scripted_def completion_of_def lines_text_def
      py_strip_def py_isspace_def eval_nat_numeral)

text \<open>
  C1. A retry that produces the candidate \<open>cn\<close> counts one retry more and makes \<open>cn\<close> the
  latest result; \<open>cn\<close> replaces the best result list if it has exactly the expected
  length, or is longer than the best one without exceeding the expected length, or is
  shorter than a best one that exceeds the expected length; in every other case the best
  result list stays as it was. In particular, with 5 expected, a first result of length
  7 and two retries that give 6 and then 8 lines, \<open>get_best_result_list\<close> returns the
  candidate of length 6 after 2 retries.
\<close>

theorem tie_break_rule:
  "(translate_and_split_lines new_str (sleep sleep_dur s) = (Inr cn, s1) \<longrightarrow>
      (\<exists>st1. retry_once plist_len new_str sleep_dur st s = (Inr st1, s1)
         \<and> retry_count st1 = Suc (retry_count st)
         \<and> result_list st1 = cn
         \<and> (length cn = plist_len
              \<or> (length (best_result_list st) < length cn \<and> length cn \<le> plist_len)
              \<or> (length cn < length (best_result_list st)
                  \<and> plist_len < length (best_result_list st))
             \<longrightarrow> best_result_list st1 = cn)
         \<and> (\<not> (length cn = plist_len
                 \<or> (length (best_result_list st) < length cn \<and> length cn \<le> plist_len)
                 \<or> (length cn < length (best_result_list st)
                     \<and> plist_len < length (best_result_list st)))
             \<longrightarrow> best_result_list st1 = best_result_list st)))
   \<and> (length c0 = 7
        \<and> translate_and_split_lines new_str (sleep sleep_dur s) = (Inr c1, s1)
        \<and> length c1 = 6
        \<and> translate_and_split_lines new_str (sleep sleep_dur s1) = (Inr c2, s2)
        \<and> length c2 = 8
      \<longrightarrow> get_best_result_list 5 new_str sleep_dur c0 2 s = (Inr (c1, 2), s2))"
proof (intro conjI impI)
  assume a: "translate_and_split_lines new_str (sleep sleep_dur s) = (Inr cn, s1)"
  show "\<exists>st1. retry_once plist_len new_str sleep_dur st s = (Inr st1, s1)
         \<and> retry_count st1 = Suc (retry_count st)
         \<and> result_list st1 = cn
         \<and> (length cn = plist_len
              \<or> (length (best_result_list st) < length cn \<and> length cn \<le> plist_len)
              \<or> (length cn < length (best_result_list st)
                  \<and> plist_len < length (best_result_list st))
             \<longrightarrow> best_result_list st1 = cn)
         \<and> (\<not> (length cn = plist_len
                 \<or> (length (best_result_list st) < length cn \<and> length cn \<le> plist_len)
                 \<or> (length cn < length (best_result_list st)
                     \<and> plist_len < length (best_result_list st)))
             \<longrightarrow> best_result_list st1 = best_result_list st)"
    by (simp add: retry_once_result [OF a])
next
  assume b: "length c0 = 7
        \<and> translate_and_split_lines new_str (sleep sleep_dur s) = (Inr c1, s1)
        \<and> length c1 = 6
        \<and> translate_and_split_lines new_str (sleep sleep_dur s1) = (Inr c2, s2)
        \<and> length c2 = 8"
  then have r1: "translate_and_split_lines new_str (sleep sleep_dur s) = (Inr c1, s1)"
    and r2: "translate_and_split_lines new_str (sleep sleep_dur s1) = (Inr c2, s2)"
    and l: "length c0 = 7" "length c1 = 6" "length c2 = 8"
    by simp_all
  show "get_best_result_list 5 new_str sleep_dur c0 2 s = (Inr (c1, 2), s2)"
    unfolding get_best_result_list_def
    apply (subst retry_loop.simps)
    apply (simp add: retry_once_result [OF r1] l)
    apply (subst retry_loop.simps)
    apply (simp add: retry_once_result [OF r2] l)
    apply (subst retry_loop.simps)
    apply (simp add: l)
    done
qed

theorem tie_break_rule_witness:
  "translate_and_split_lines [] (sleep 6 (new_translator demo_backend)) =
     (Inr (replicate 6 ''x''), (new_translator demo_backend)\<lparr>calls := 1, sent := [[]], slept := [6]\<rparr>)
   \<and> translate_and_split_lines []
        (sleep 6 ((new_translator demo_backend)\<lparr>calls := 1, sent := [[]], slept := [6]\<rparr>)) =
     (Inr (replicate 8 ''x''), (new_translator demo_backend)\<lparr>calls := 2, sent := [[], []], slept := [6, 6]\<rparr>)
   \<and> (\<exists>st1. retry_once 5 [] 6
               \<lparr>retry_count = 0, result_list = replicate 7 ''a'',
                best_result_list = replicate 7 ''a''\<rparr> (new_translator demo_backend) =
             (Inr st1, (new_translator demo_backend)\<lparr>calls := 1, sent := [[]], slept := [6]\<rparr>)
          \<and> retry_count st1 = 1
          \<and> best_result_list st1 = replicate 6 ''x'')
   \<and> get_best_result_list 5 [] 6 (replicate 7 ''a'') 2 (new_translator demo_backend) =
       (Inr (replicate 6 ''x'', 2), (new_translator demo_backend)\<lparr>calls := 2, sent := [[], []], slept := [6, 6]\<rparr>)"
  using demo_first_retry demo_second_retry
    tie_break_rule [of "[]" 6 "new_translator demo_backend" "replicate 6 ''x''"
      "(new_translator demo_backend)\<lparr>calls := 1, sent := [[]], slept := [6]\<rparr>" 5
      "\<lparr>retry_count = 0, result_list = replicate 7 ''a'', best_result_list = replicate 7 ''a''\<rparr>"
      "replicate 7 ''a''" "replicate 6 ''x''" "replicate 8 ''x''"
      "(new_translator demo_backend)\<lparr>calls := 2, sent := [[], []], slept := [6, 6]\<rparr>"]
  by auto

lemma retry_once_bounds:
  assumes "retry_once plist_len new_str sleep_dur st s = (Inr st1, s1)"
  shows "(length (best_result_list st) \<le> plist_len \<longrightarrow>
            length (best_result_list st) \<le> length (best_result_list st1)
            \<and> length (best_result_list st1) \<le> plist_len)
       \<and> (plist_len < length (best_result_list st) \<longrightarrow>
            length (best_result_list st1) \<le> length (best_result_list st))"
  using assms
  by (auto simp: retry_once_def split: prod.splits sum.splits if_splits)

lemma retry_loop_bounds:
  "retry_loop plist_len new_str sleep_dur max_retries st s = (Inr st1, s1) \<Longrightarrow>
     (length (best_result_list st) \<le> plist_len \<longrightarrow>
        length (best_result_list st) \<le> length (best_result_list st1)
        \<and> length (best_result_list st1) \<le> plist_len)
     \<and> (plist_len < length (best_result_list st) \<longrightarrow>
          length (best_result_list st1) \<le> length (best_result_list st))"
proof (induction plist_len new_str sleep_dur max_retries st s rule: retry_loop.induct)
  case (1 plist_len new_str sleep_dur max_retries st s)
  show ?case
  proof (cases "retry_count st < max_retries \<and> length (result_list st) \<noteq> plist_len")
    case False
    with "1.prems" have "st1 = st" by (simp add: retry_loop.simps)
    then show ?thesis by simp
  next
    case True
    obtain r0 s0 where ro: "retry_once plist_len new_str sleep_dur st s = (r0, s0)"
      by (cases "retry_once plist_len new_str sleep_dur st s")
    with True "1.prems" obtain st0 where r0: "r0 = Inr st0"
      by (cases r0) (simp_all add: retry_loop.simps)
    with True ro "1.prems"
    have l: "retry_loop plist_len new_str sleep_dur max_retries st0 s0 = (Inr st1, s1)"
      by (simp add: retry_loop.simps)
    from "1.IH" [OF True ro [symmetric] r0 l] retry_once_bounds [OF ro [unfolded r0]]
    show ?thesis by (cases "length (best_result_list st0) \<le> plist_len") auto
  qed
qed

text \<open>
  C3 (as amended). When a retry produces a candidate: if the best result list is not
  longer than expected, its distance from the expected length does not grow; if it is
  longer than expected, it does not get longer (a shorter candidate replaces it, however
  far below the expected length that candidate is); and a best result list of exactly
  the expected length keeps that length. Over the whole run of \<open>get_best_result_list\<close>:
  from a first result that is not longer than expected, the length of the best result
  list only moves up, and not beyond the expected length; from a longer first result it
  never moves above the length of the first result.
\<close>

theorem tie_break_monotone_below:
  "(retry_once plist_len new_str sleep_dur st s = (Inr st1, s1) \<longrightarrow>
      (length (best_result_list st) \<le> plist_len \<longrightarrow>
         \<bar>int (length (best_result_list st1)) - int plist_len\<bar>
           \<le> \<bar>int (length (best_result_list st)) - int plist_len\<bar>)
      \<and> (plist_len < length (best_result_list st) \<longrightarrow>
           length (best_result_list st1) \<le> length (best_result_list st))
      \<and> (length (best_result_list st) = plist_len \<longrightarrow>
           length (best_result_list st1) = plist_len))
   \<and> (get_best_result_list plist_len new_str sleep_dur c0 max_retries s = (Inr (best, n), s2) \<longrightarrow>
        (length c0 \<le> plist_len \<longrightarrow> length c0 \<le> length best \<and> length best \<le> plist_len)
        \<and> (plist_len < length c0 \<longrightarrow> length best \<le> length c0))"
proof (intro conjI impI)
  assume a: "get_best_result_list plist_len new_str sleep_dur c0 max_retries s =
               (Inr (best, n), s2)"
  have b: "(length c0 \<le> plist_len \<longrightarrow> length c0 \<le> length best \<and> length best \<le> plist_len)
        \<and> (plist_len < length c0 \<longrightarrow> length best \<le> length c0)"
  proof (cases "length c0 = plist_len")
    case True
    with a show ?thesis by (simp add: get_best_result_list_def)
  next
    case False
    obtain r0 s0 where l: "retry_loop plist_len new_str sleep_dur max_retries
        \<lparr>retry_count = 0, result_list = c0, best_result_list = c0\<rparr> s = (r0, s0)"
      by (cases "retry_loop plist_len new_str sleep_dur max_retries
        \<lparr>retry_count = 0, result_list = c0, best_result_list = c0\<rparr> s")
    with a False obtain st1 where r0: "r0 = Inr st1" and be: "best = best_result_list st1"
      by (cases r0) (auto simp: get_best_result_list_def)
    from retry_loop_bounds [OF l [unfolded r0]] be show ?thesis by simp
  qed
  from b show "length c0 \<le> plist_len \<Longrightarrow> length c0 \<le> length best" by simp
  from b show "length c0 \<le> plist_len \<Longrightarrow> length best \<le> plist_len" by simp
  from b show "plist_len < length c0 \<Longrightarrow> length best \<le> length c0" by simp
qed (auto simp: retry_once_def split: prod.splits sum.splits if_splits)

lemma one_line_retry:
  "retry_once plist_len [] 6 st (new_translator one_line_backend) =
     (Inr \<lparr>retry_count = Suc (retry_count st), result_list = [''x''],
           best_result_list =
             (if 1 = plist_len
                 \<or> (length (best_result_list st) < 1 \<and> 1 \<le> plist_len)
                 \<or> (1 < length (best_result_list st) \<and> plist_len < length (best_result_list st))
              then [''x''] else best_result_list st)\<rparr>,
      (new_translator one_line_backend)\<lparr>calls := 1, sent := [[]], slept := [6]\<rparr>)"
  by (simp add: retry_once_def translate_and_split_lines_def translate_def translate_loop.simps
      max_attempts_def get_translation_def create_chat_completion_def read_completion_def
      parse_completion_def sleep_def new_translator_def one_line_backend_def scripted_def
      completion_of_def py_strip_def py_isspace_def)

theorem tie_break_monotone_below_witness:
  "retry_once 5 [] 6
     \<lparr>retry_count = 0, result_list = [], best_result_list = []\<rparr>
     (new_translator one_line_backend) =
     (Inr \<lparr>retry_count = 1, result_list = [''x''], best_result_list = [''x'']\<rparr>,
      (new_translator one_line_backend)\<lparr>calls := 1, sent := [[]], slept := [6]\<rparr>)
   \<and> \<bar>int (length [''x'']) - int 5\<bar> \<le> \<bar>int (length ([] :: string list)) - int 5\<bar>
   \<and> fst (get_best_result_list 2 [] 6 [] 15 (new_translator one_line_backend)) =
       Inr ([''x''], 15)
   \<and> fst (get_best_result_list 0 [] 6 [''a'', ''a''] 15 (new_translator one_line_backend)) =
       Inr ([''x''], 15)"
proof -
  have g1: "fst (get_best_result_list 2 [] 6 [] 15 (new_translator one_line_backend)) =
              Inr ([''x''], 15)"
    by code_simp
  have g2: "fst (get_best_result_list 0 [] 6 [''a'', ''a''] 15
                   (new_translator one_line_backend)) = Inr ([''x''], 15)"
    by code_simp
  from one_line_retry [of 5 "\<lparr>retry_count = 0, result_list = [], best_result_list = []\<rparr>"]
    tie_break_monotone_below [of 5 "[]" 6
      "\<lparr>retry_count = 0, result_list = [], best_result_list = []\<rparr>"
      "new_translator one_line_backend"
      "\<lparr>retry_count = 1, result_list = [''x''], best_result_list = [''x'']\<rparr>"
      "(new_translator one_line_backend)\<lparr>calls := 1, sent := [[]], slept := [6]\<rparr>"]
    g1 g2
  show ?thesis by simp
qed

text \<open>
  The claim C3 as stated fails: with 5 expected and a first result of length 6 (distance
  1), a retry that gives one line makes that line the best result (distance 4).
\<close>

theorem tie_break_monotone_counterexample:
  "fst (get_best_result_list 5 [] 6 (replicate 6 ''a'') 1 (new_translator one_line_backend))
     = Inr ([''x''], 1)
   \<and> \<bar>int (length [''x'']) - 5\<bar> > \<bar>int (length (replicate 6 ''a'')) - 5\<bar>"
  by code_simp

text \<open>
  C4 (as amended). If the first result list has exactly the expected length (0
  included), \<open>get_best_result_list\<close> returns it with 0 retries, and the backend is not
  called.
\<close>

theorem immediate_success:
  "length c0 = plist_len \<Longrightarrow>
   get_best_result_list plist_len new_str sleep_dur c0 max_retries s = (Inr (c0, 0), s)"
  by (simp add: get_best_result_list_def)

theorem immediate_success_witness:
  "length [''a'', ''b''] = 2
   \<and> get_best_result_list 2 ''(1) a'' 6 [''a'', ''b''] 15 (new_translator demo_backend) =
       (Inr ([''a'', ''b''], 0), new_translator demo_backend)"
  using immediate_success [of "[''a'', ''b'']" 2 "''(1) a''" 6 15 "new_translator demo_backend"]
  by simp

text \<open>
  The claim C4 as stated fails: with 0 expected and a first result of one line, the loop
  runs, and \<open>get_best_result_list\<close> returns after 15 retries and 15 calls of the backend.
\<close>

theorem immediate_success_counterexample:
  "fst (get_best_result_list 0 [] 6 [''a''] 15 (new_translator one_line_backend))
     = Inr ([''a''], 15)
   \<and> calls (snd (get_best_result_list 0 [] 6 [''a''] 15 (new_translator one_line_backend))) = 15"
  by code_simp

section \<open>Failures of the backend\<close>

























section \<open>Splitting, joining and stripping\<close>

lemma py_split_not_empty: "py_split sp s \<noteq> []"
  by (induction sp s rule: py_split.induct) (auto split: list.splits)

lemma py_join_Cons: "ps \<noteq> [] \<Longrightarrow> py_join sp (p # ps) = p @ sp @ py_join sp ps"
  by (cases ps) auto

lemma py_join_Cons_char:
  "py_join sp ((c # p) # ps) = c # py_join sp (p # ps)"
  by (cases ps) auto

lemma py_join_py_split: "py_join sp (py_split sp s) = s"
proof (induction sp s rule: py_split.induct)
  case (1 sp)
  show ?case by simp
next
  case (2 sp c cs)
  show ?case
  proof (cases "sp \<noteq> [] \<and> prefix sp (c # cs)")
    case True
    then obtain zs where zs: "c # cs = sp @ zs" by (auto simp: prefix_def)
    then have d: "drop (length sp) (c # cs) = zs" by simp
    from True have "py_split sp (c # cs) = [] # py_split sp (drop (length sp) (c # cs))"
      by simp
    then have "py_join sp (py_split sp (c # cs)) =
                 sp @ py_join sp (py_split sp (drop (length sp) (c # cs)))"
      by (simp add: py_join_Cons py_split_not_empty del: drop_Suc_Cons py_split.simps)
    also have "\<dots> = sp @ drop (length sp) (c # cs)" using "2.IH"(1) [OF True] by simp
    also have "\<dots> = c # cs" using zs d by simp
    finally show ?thesis .
  next
    case False
    with 2 show ?thesis
      by (auto simp: py_join_Cons_char py_split_not_empty split: list.splits)
  qed
qed

lemma py_split_pieces_without_newline:
  "p \<in> set (py_split NL s) \<Longrightarrow> CHR 0x0A \<notin> set p"
proof (induction "NL" s arbitrary: p rule: py_split.induct)
  case 1
  then show ?case by simp
next
  case (2 c cs)
  show ?case
  proof (cases "c = CHR 0x0A")
    case True
    with 2 show ?thesis by auto
  next
    case False
    with 2 show ?thesis by (auto split: list.splits)
  qed
qed

lemma py_strip_not_space:
  assumes "py_strip s = [c]"
  shows "\<not> py_isspace c"
proof -
  from assms have "dropWhile py_isspace (rev (dropWhile py_isspace s)) = [c]"
    by (simp add: py_strip_def rev_swap)
  from hd_dropWhile [of py_isspace "rev (dropWhile py_isspace s)"] this
  show ?thesis by auto
qed

lemma py_strip_never_CR: "py_strip line \<noteq> CR"
proof
  assume "py_strip line = CR"
  from py_strip_not_space [OF this] show False by (simp add: py_isspace_def)
qed

lemma join_lines_filter_keeps_all:
  "join_lines t = py_replace ''^M'' CR (joined_text t)"
  by (simp add: join_lines_def Let_def py_strip_never_CR py_join_py_split)

text \<open>
  C9. When \<open>translate\<close> returns the text \<open>r\<close>, \<open>translate_and_split_lines\<close> returns the
  pieces of \<open>r\<close> between its newline characters (joined by newlines they give \<open>r\<close> back,
  and none contains a newline), each stripped of its surrounding white space, without
  those that are empty after stripping, in their order and with their repetitions.
\<close>

theorem response_splitter_contract:
  assumes "translate tx s = (Inr r, s1)"
  shows "\<exists>pieces. py_join NL pieces = r
           \<and> (\<forall>p \<in> set pieces. CHR 0x0A \<notin> set p)
           \<and> translate_and_split_lines tx s =
               (Inr (filter (\<lambda>line. line \<noteq> []) (map py_strip pieces)), s1)"
proof (intro exI [of _ "py_split NL r"] conjI ballI)
  show "py_join NL (py_split NL r) = r" by (rule py_join_py_split)
next
  fix p assume "p \<in> set (py_split NL r)"
  then show "CHR 0x0A \<notin> set p" by (rule py_split_pieces_without_newline)
next
  show "translate_and_split_lines tx s =
          (Inr (filter (\<lambda>line. line \<noteq> []) (map py_strip (py_split NL r))), s1)"
    using assms by (simp add: translate_and_split_lines_def filter_map comp_def)
qed

lemma one_line_translate:
  "translate ''t'' (new_translator (scripted [] (Return (completion_of t ''stop'')))) =
     (Inr t, (new_translator (scripted [] (Return (completion_of t ''stop''))))
               \<lparr>calls := 1, sent := [''t'']\<rparr>)"
  by (simp add: translate_def translate_loop.simps max_attempts_def get_translation_def
      create_chat_completion_def read_completion_def parse_completion_def new_translator_def
      scripted_def completion_of_def)

theorem response_splitter_contract_witness:
  "translate ''t'' (new_translator (scripted [] (Return (completion_of '' a  \<newline>\<newline>b\<newline> a'' ''stop'')))) =
     (Inr '' a  \<newline>\<newline>b\<newline> a'',
      (new_translator (scripted [] (Return (completion_of '' a  \<newline>\<newline>b\<newline> a'' ''stop''))))
        \<lparr>calls := 1, sent := [''t'']\<rparr>)
   \<and> fst (translate_and_split_lines ''t''
        (new_translator (scripted [] (Return (completion_of '' a  \<newline>\<newline>b\<newline> a'' ''stop''))))) =
       Inr [''a'', ''b'', ''a'']
   \<and> (\<exists>pieces. py_join NL pieces = '' a  \<newline>\<newline>b\<newline> a''
         \<and> translate_and_split_lines ''t''
             (new_translator (scripted [] (Return (completion_of '' a  \<newline>\<newline>b\<newline> a'' ''stop'')))) =
             (Inr (filter (\<lambda>line. line \<noteq> []) (map py_strip pieces)),
              (new_translator (scripted [] (Return (completion_of '' a  \<newline>\<newline>b\<newline> a'' ''stop''))))
                \<lparr>calls := 1, sent := [''t'']\<rparr>))"
proof -
  have f: "fst (translate_and_split_lines ''t''
        (new_translator (scripted [] (Return (completion_of '' a  \<newline>\<newline>b\<newline> a'' ''stop''))))) =
       Inr [''a'', ''b'', ''a'']"
    by code_simp
  from response_splitter_contract [OF one_line_translate [of "'' a  \<newline>\<newline>b\<newline> a''"]]
    one_line_translate [of "'' a  \<newline>\<newline>b\<newline> a''"] f
  show ?thesis by blast
qed

lemma collapse_runs_blank: "blank l \<Longrightarrow> collapse_runs (l # ls) = l # collapse_runs ls"
  by (simp add: collapse_runs.simps)

lemma collapse_runs_run:
  "\<not> blank l \<Longrightarrow>
   collapse_runs (l # ls) =
     py_join '' '' (py_strip l # map py_strip (takeWhile (\<lambda>x. \<not> blank x) ls))
     # collapse_runs (dropWhile (\<lambda>x. \<not> blank x) ls)"
  by (simp add: collapse_runs.simps)

lemma join_loop_collapses:
  "(\<forall>new_lines. flush (foldl join_step (new_lines, []) ls) = new_lines @ collapse_runs ls)
   \<and> (\<forall>new_lines temp_line. temp_line \<noteq> [] \<longrightarrow>
         flush (foldl join_step (new_lines, temp_line) ls) =
           new_lines
           @ py_join '' '' (temp_line @ map py_strip (takeWhile (\<lambda>x. \<not> blank x) ls))
             # collapse_runs (dropWhile (\<lambda>x. \<not> blank x) ls))"
proof (induction ls)
  case Nil
  show ?case by (simp add: collapse_runs.simps)
next
  case (Cons l ls)
  show ?case
  proof (cases "blank l")
    case True
    then have s: "py_strip l = []" by (simp add: blank_def)
    show ?thesis
      using Cons True s by (simp add: collapse_runs_blank)
  next
    case False
    then have s: "py_strip l \<noteq> []" by (simp add: blank_def)
    show ?thesis
      using Cons False s by (simp add: collapse_runs_run)
  qed
qed

lemma joined_text_collapses: "joined_text t = collapse_text t"
  using join_loop_collapses [of "py_split NL t"]
  by (simp add: joined_text_def collapse_text_def)

text \<open>
  C10. No line stripped of its white space is the single carriage return, so the last
  pass of \<open>join_lines\<close> removes nothing: \<open>join_lines\<close> is the function that joins the
  soft-wrapped lines (every run of consecutive non-blank lines becomes one line) and
  then replaces every \<open>^M\<close> by a carriage return.
\<close>

theorem join_lines_filter_is_void:
  "(\<forall>line. py_strip line \<noteq> CR)
   \<and> (\<forall>t. join_lines t = join_lines_without_filter t)
   \<and> (\<forall>t. join_lines t = py_replace ''^M'' CR (collapse_text t))"
  by (simp add: py_strip_never_CR join_lines_filter_keeps_all join_lines_without_filter_def
      joined_text_collapses)

section \<open>The request\<close>















section \<open>The leading number\<close>

lemma accepts_Digit: "accepts Digit = py_isdecimal"
  by (rule ext) simp

lemma not_digits:
  "\<not> py_isdecimal (CHR ''('')" "\<not> py_isdecimal (CHR '')'')" "\<not> py_isdecimal (CHR ''.'')"
  by (simp_all add: py_isdecimal_def)

lemma star_rests_not_empty: "star_rests a s \<noteq> []"
  by (induction s) auto

lemma star_rests_length: "x \<in> set (star_rests a s) \<Longrightarrow> length x \<le> length s"
  by (induction s) (auto split: if_splits)

lemma star_rests_cases:
  "x \<in> set (star_rests a s) \<Longrightarrow>
     x = dropWhile (accepts a) s \<or> (\<exists>c cs. x = c # cs \<and> accepts a c)"
  by (induction s) (auto split: if_splits)

lemma star_rests_longest: "dropWhile (accepts a) s \<in> set (star_rests a s)"
  by (induction s) auto

lemma rests_length: "x \<in> set (rests r s) \<Longrightarrow> length x \<le> length s"
proof (induction r arbitrary: s x)
  case (Atom a)
  then show ?case by (cases s) (auto split: if_splits)
next
  case (Plus a)
  then show ?case by (cases s) (auto split: if_splits dest: star_rests_length)
next
  case (Star a)
  then show ?case by (auto dest: star_rests_length)
next
  case (Seq r1 r2)
  from Seq.prems obtain y where "y \<in> set (rests r1 s)" "x \<in> set (rests r2 y)" by auto
  with Seq.IH [of y s] Seq.IH(2) [of x y] show ?case by simp
next
  case (Alt r1 r2)
  then show ?case by auto
qed

lemma rests_consuming:
  "consuming r \<Longrightarrow> x \<in> set (rests r s) \<Longrightarrow> length x < length s"
proof (induction r arbitrary: s x)
  case (Atom a)
  then show ?case by (cases s) (auto split: if_splits)
next
  case (Plus a)
  then show ?case by (cases s) (auto split: if_splits dest: star_rests_length)
next
  case (Star a)
  then show ?case by simp
next
  case (Seq r1 r2)
  from Seq.prems obtain y where y: "y \<in> set (rests r1 s)" "x \<in> set (rests r2 y)" by auto
  from Seq.prems(1) have "consuming r1 \<or> consuming r2" by simp
  then show ?case
  proof
    assume "consuming r1"
    with Seq.IH(1) [of y s] y rests_length [of x r2 y] show ?thesis by simp
  next
    assume "consuming r2"
    with Seq.IH(2) [of x y] y rests_length [of y r1 s] show ?thesis by simp
  qed
next
  case (Alt r1 r2)
  then show ?case by auto
qed

lemma closing_after_digits:
  "concat (map (rests (Atom (Lit (CHR '')'')))) (star_rests Digit ds)) = []
     \<longleftrightarrow> \<not> (case dropWhile py_isdecimal ds of [] \<Rightarrow> False | d # ds' \<Rightarrow> d = CHR '')'')"
proof -
  have "concat (map (rests (Atom (Lit (CHR '')'')))) (star_rests Digit ds)) \<noteq> []
     \<longleftrightarrow> (case dropWhile py_isdecimal ds of [] \<Rightarrow> False | d # ds' \<Rightarrow> d = CHR '')'')"
  proof
    assume "concat (map (rests (Atom (Lit (CHR '')'')))) (star_rests Digit ds)) \<noteq> []"
    then obtain x where
      x: "x \<in> set (star_rests Digit ds)" "rests (Atom (Lit (CHR '')''))) x \<noteq> []"
      by auto
    from x(2) obtain xs where xs: "x = CHR '')'' # xs" by (cases x) (auto split: if_splits)
    from star_rests_cases [OF x(1)] xs have "x = dropWhile py_isdecimal ds"
      by (auto simp: accepts_Digit not_digits)
    with xs show "case dropWhile py_isdecimal ds of [] \<Rightarrow> False | d # ds' \<Rightarrow> d = CHR '')''"
      by (auto split: list.splits)
  next
    assume a: "case dropWhile py_isdecimal ds of [] \<Rightarrow> False | d # ds' \<Rightarrow> d = CHR '')''"
    then obtain xs where "dropWhile py_isdecimal ds = CHR '')'' # xs"
      by (auto split: list.splits)
    with star_rests_longest [of Digit ds]
    have "CHR '')'' # xs \<in> set (star_rests Digit ds)" by (simp add: accepts_Digit)
    then have "\<exists>x \<in> set (star_rests Digit ds). rests (Atom (Lit (CHR '')''))) x \<noteq> []"
      by (intro bexI [of _ "CHR '')'' # xs"]) simp_all
    then show "concat (map (rests (Atom (Lit (CHR '')'')))) (star_rests Digit ds)) \<noteq> []"
      by auto
  qed
  then show ?thesis by blast
qed

lemma number_rests_digit:
  "py_isdecimal c \<Longrightarrow> rests number_pattern (c # cs) \<noteq> []"
  by (simp add: number_pattern_def star_rests_not_empty)

lemma number_rests_other:
  "\<not> py_isdecimal c \<Longrightarrow> c \<noteq> CHR ''('' \<Longrightarrow> rests number_pattern (c # cs) = []"
  by (simp add: number_pattern_def)

lemma number_rests_paren:
  "rests number_pattern (CHR ''('' # cs) =
     (case cs of
        [] \<Rightarrow> []
      | d # ds \<Rightarrow>
          if py_isdecimal d
          then concat (map (rests (Atom (Lit (CHR '')'')))) (star_rests Digit ds))
          else [])"
  by (simp add: number_pattern_def not_digits split: list.splits)

lemma number_rests_empty: "rests number_pattern s = [] \<longleftrightarrow> \<not> starts_with_number s"
proof (cases s)
  case Nil
  then show ?thesis by (simp add: number_pattern_def starts_with_number_def)
next
  case (Cons c cs)
  show ?thesis
  proof (cases "py_isdecimal c")
    case True
    with Cons number_rests_digit [of c cs] show ?thesis
      by (simp add: starts_with_number_def)
  next
    case False
    show ?thesis
    proof (cases "c = CHR ''(''")
      case no: False
      with False Cons number_rests_other [of c cs] show ?thesis
        by (simp add: starts_with_number_def)
    next
      case True
      show ?thesis
      proof (cases cs)
        case Nil
        with True \<open>s = c # cs\<close> show ?thesis
          by (simp add: number_rests_paren starts_with_number_def not_digits)
      next
        case (Cons d ds)
        show ?thesis
        proof (cases "py_isdecimal d")
          case False
          with True Cons \<open>s = c # cs\<close> show ?thesis
            by (simp add: number_rests_paren starts_with_number_def not_digits)
        next
          case True
          with \<open>c = CHR ''(''\<close> Cons \<open>s = c # cs\<close> closing_after_digits [of ds]
          show ?thesis
            by (simp add: number_rests_paren starts_with_number_def not_digits)
        qed
      qed
    qed
  qed
qed

lemma no_match_without_number:
  "rests prefix_pattern s = [] \<longleftrightarrow> \<not> starts_with_number s"
proof -
  have "rests prefix_pattern s = [] \<longleftrightarrow> rests number_pattern s = []"
    by (cases "rests number_pattern s") (simp_all add: prefix_pattern_def star_rests_not_empty)
  then show ?thesis by (simp add: number_rests_empty)
qed

lemma strip_number_fixed: "strip_number r = r \<longleftrightarrow> \<not> starts_with_number r"
proof (cases "rests prefix_pattern r")
  case Nil
  with no_match_without_number [of r] show ?thesis
    by (simp add: strip_number_def re_sub_start_def)
next
  case (Cons x xs)
  have "consuming prefix_pattern" by (simp add: prefix_pattern_def number_pattern_def)
  from rests_consuming [OF this, of x r] Cons have "length x < length r" by simp
  then have "x \<noteq> r" by auto
  with Cons no_match_without_number [of r] show ?thesis
    by (simp add: strip_number_def re_sub_start_def)
qed

text \<open>
  C5 (as amended). Removing the leading number a second time changes nothing exactly
  when what the first removal has left does not begin with a number again (with a
  decimal digit, or with a parenthesized number).
\<close>

theorem strip_number_twice:
  "strip_number (strip_number s) = strip_number s \<longleftrightarrow> \<not> starts_with_number (strip_number s)"
  by (rule strip_number_fixed)

theorem strip_number_twice_witness:
  "strip_number ''(1) abc'' = ''abc''
   \<and> \<not> starts_with_number (strip_number ''(1) abc'')
   \<and> strip_number (strip_number ''(1) abc'') = strip_number ''(1) abc''"
proof -
  have a: "strip_number ''(1) abc'' = ''abc''" by code_simp
  have b: "\<not> starts_with_number ''abc''" by code_simp
  from strip_number_twice [of "''(1) abc''"] a b show ?thesis by simp
qed

text \<open>
  The claim C5 as stated fails: of \<open>1 2\<close> the first removal leaves \<open>2\<close> and the second
  nothing; of \<open>(1) 2023 was dry\<close> the first leaves \<open>2023 was dry\<close> and the second
  \<open>was dry\<close>.
\<close>

theorem strip_number_twice_counterexample:
  "strip_number ''1 2'' = ''2''
   \<and> strip_number (strip_number ''1 2'') = []
   \<and> strip_number ''(1) 2023 was dry'' = ''2023 was dry''
   \<and> strip_number (strip_number ''(1) 2023 was dry'') = ''was dry''"
  by code_simp

end
